theory Spec2Isabelle
  imports Main "HOL-Library.Word"
begin

section \<open>Values of the Python program\<close>

text \<open>
  A Python \<open>str\<close> is a sequence of Unicode code points and a \<open>bytes\<close> object a
  sequence of octets. The exceptions that the modelled code can raise are the
  constructors of \<open>exn\<close>; a call that may raise returns \<open>exn + 'a\<close>.
\<close>

type_synonym pychar = nat
type_synonym pystr = "nat list"
type_synonym byte = "8 word"

datatype exn =
  StopIteration | OSError | UnicodeDecodeError | UnicodeEncodeError | ValueError | KeyError

text \<open>Literals: the code points, respectively the octets, of an ASCII text.\<close>

definition str :: "string \<Rightarrow> pystr" where
  "str cs = map of_char cs"

definition bytes :: "string \<Rightarrow> byte list" where
  "bytes cs = map of_char cs"

section \<open>Built-in operations of Python used by the program\<close>

subsection \<open>The \<open>windows-1252\<close> codec\<close>

text \<open>
  \<open>PacketLogger.ENCODING = 'windows-1252'\<close> selects Python's \<open>cp1252\<close> charmap codec.
  Octets below \<open>0x80\<close> and from \<open>0xA0\<close> on decode to the code point of the same
  number; the 32 octets \<open>0x80 .. 0x9F\<close> decode by the table below, in which five
  entries are undefined. Both directions are used with \<open>errors='strict'\<close>.
\<close>

definition cp1252_high :: "nat option list" where
  "cp1252_high =
    [Some 0x20AC, None,        Some 0x201A, Some 0x0192, Some 0x201E, Some 0x2026, Some 0x2020, Some 0x2021,
     Some 0x02C6, Some 0x2030, Some 0x0160, Some 0x2039, Some 0x0152, None,        Some 0x017D, None,
     None,        Some 0x2018, Some 0x2019, Some 0x201C, Some 0x201D, Some 0x2022, Some 0x2013, Some 0x2014,
     Some 0x02DC, Some 0x2122, Some 0x0161, Some 0x203A, Some 0x0153, None,        Some 0x017E, Some 0x0178]"

definition decode_byte :: "byte \<Rightarrow> pychar option" where
  "decode_byte b =
     (let n = unat b in
      if n < 0x80 \<or> 0xA0 \<le> n then Some n else cp1252_high ! (n - 0x80))"

fun decode :: "byte list \<Rightarrow> exn + pystr" where
  "decode [] = Inr []"
| "decode (b # bs) =
     (case decode_byte b of
        None \<Rightarrow> Inl UnicodeDecodeError
      | Some c \<Rightarrow> (case decode bs of Inl e \<Rightarrow> Inl e | Inr cs \<Rightarrow> Inr (c # cs)))"

definition encode_char :: "pychar \<Rightarrow> byte option" where
  "encode_char c =
     (if c < 0x80 \<or> (0xA0 \<le> c \<and> c \<le> 0xFF) then Some (of_nat c)
      else map_option (\<lambda>i. of_nat (0x80 + i))
             (List.find (\<lambda>i. cp1252_high ! i = Some c) [0..<32]))"

fun encode :: "pystr \<Rightarrow> exn + byte list" where
  "encode [] = Inr []"
| "encode (c # cs) =
     (case encode_char c of
        None \<Rightarrow> Inl UnicodeEncodeError
      | Some b \<Rightarrow> (case encode cs of Inl e \<Rightarrow> Inl e | Inr bs \<Rightarrow> Inr (b # bs)))"

subsection \<open>\<open>str.strip\<close>, \<open>str.split\<close> and \<open>int\<close>\<close>

text \<open>
  \<open>str.strip()\<close> without argument removes the characters for which \<open>str.isspace\<close>
  holds from both ends.
\<close>

definition py_isspace :: "pychar \<Rightarrow> bool" where
  "py_isspace c =
     ((9 \<le> c \<and> c \<le> 13) \<or> (28 \<le> c \<and> c \<le> 32) \<or> c = 0x85 \<or> c = 0xA0 \<or> c = 0x1680
      \<or> (0x2000 \<le> c \<and> c \<le> 0x200A) \<or> c = 0x2028 \<or> c = 0x2029 \<or> c = 0x202F
      \<or> c = 0x205F \<or> c = 0x3000)"

definition py_rstrip :: "pystr \<Rightarrow> pystr" where
  "py_rstrip s = rev (dropWhile py_isspace (rev s))"

definition py_strip :: "pystr \<Rightarrow> pystr" where
  "py_strip s = py_rstrip (dropWhile py_isspace s)"

text \<open>
  \<open>s.split(sep, maxsplit)\<close> for a separator of one character: at most \<open>maxsplit\<close>
  cuts, each at the leftmost remaining separator; empty parts are kept.
\<close>

fun py_split :: "pychar \<Rightarrow> nat \<Rightarrow> pystr \<Rightarrow> pystr list" where
  "py_split sep 0 s = [s]"
| "py_split sep (Suc n) s =
     (if sep \<in> set s
      then takeWhile (\<lambda>c. c \<noteq> sep) s # py_split sep n (tl (dropWhile (\<lambda>c. c \<noteq> sep) s))
      else [s])"

text \<open>
  \<open>int(s)\<close> for a string. CPython first maps the string to ASCII: a code point
  below 127 stays, any other white space becomes a blank, any other decimal digit
  (Unicode 14 general category \<open>Nd\<close>, ten consecutive code points per script,
  starting at the zeros listed here) becomes the ASCII digit of its value, and
  anything else makes the literal invalid. The ASCII text must then be: optional
  C white space, an optional sign, digits with single underscores allowed between
  them, optional C white space. More than 4300 digits are rejected (the default
  of \<open>sys.get_int_max_str_digits()\<close>). Every failure is a \<open>ValueError\<close>, here
  \<open>None\<close>.
\<close>

definition decimal_zeros :: "nat list" where
  "decimal_zeros =
    [0x30, 0x660, 0x6F0, 0x7C0, 0x966, 0x9E6, 0xA66, 0xAE6, 0xB66, 0xBE6, 0xC66, 0xCE6,
     0xD66, 0xDE6, 0xE50, 0xED0, 0xF20, 0x1040, 0x1090, 0x17E0, 0x1810, 0x1946, 0x19D0,
     0x1A80, 0x1A90, 0x1B50, 0x1BB0, 0x1C40, 0x1C50, 0xA620, 0xA8D0, 0xA900, 0xA9D0,
     0xA9F0, 0xAA50, 0xABF0, 0xFF10, 0x104A0, 0x10D30, 0x11066, 0x110F0, 0x11136,
     0x111D0, 0x112F0, 0x11450, 0x114D0, 0x11650, 0x116C0, 0x11730, 0x118E0, 0x11950,
     0x11C50, 0x11D50, 0x11DA0, 0x16A60, 0x16AC0, 0x16B50, 0x1D7CE, 0x1D7D8, 0x1D7E2,
     0x1D7EC, 0x1D7F6, 0x1E140, 0x1E2F0, 0x1E950, 0x1FBF0]"

definition unicode_decimal :: "pychar \<Rightarrow> nat option" where
  "unicode_decimal c =
     map_option (\<lambda>z. c - z) (List.find (\<lambda>z. z \<le> c \<and> c < z + 10) decimal_zeros)"

definition to_ascii_char :: "pychar \<Rightarrow> pychar option" where
  "to_ascii_char c =
     (if c < 127 then Some c
      else if py_isspace c then Some 32
      else map_option (\<lambda>d. 48 + d) (unicode_decimal c))"

fun to_ascii :: "pystr \<Rightarrow> pystr option" where
  "to_ascii [] = Some []"
| "to_ascii (c # cs) =
     (case to_ascii_char c of
        None \<Rightarrow> None
      | Some a \<Rightarrow> (case to_ascii cs of None \<Rightarrow> None | Some as \<Rightarrow> Some (a # as)))"

definition c_isspace :: "pychar \<Rightarrow> bool" where
  "c_isspace c = ((9 \<le> c \<and> c \<le> 13) \<or> c = 32)"

definition is_digit :: "pychar \<Rightarrow> bool" where
  "is_digit c = (48 \<le> c \<and> c \<le> 57)"

fun underscores_single :: "pystr \<Rightarrow> bool" where
  "underscores_single (a # b # cs) = (\<not> (a = 95 \<and> b = 95) \<and> underscores_single (b # cs))"
| "underscores_single cs = True"

definition int_max_str_digits :: nat where
  "int_max_str_digits = 4300"

definition py_int :: "pystr \<Rightarrow> int option" where
  "py_int s =
     (case to_ascii s of
        None \<Rightarrow> None
      | Some a \<Rightarrow>
         (let s1 = dropWhile c_isspace a;
              negative = (s1 \<noteq> [] \<and> hd s1 = 45);
              s2 = (if s1 \<noteq> [] \<and> (hd s1 = 43 \<or> hd s1 = 45) then tl s1 else s1);
              body = takeWhile (\<lambda>c. is_digit c \<or> c = 95) s2;
              rest = dropWhile (\<lambda>c. is_digit c \<or> c = 95) s2;
              digits = filter is_digit body;
              v = foldl (\<lambda>acc c. 10 * acc + int (c - 48)) 0 digits
          in if body = [] then None
             else if hd body = 95 \<or> last body = 95 then None
             else if \<not> underscores_single body then None
             else if int_max_str_digits < length digits then None
             else if dropWhile c_isspace rest \<noteq> [] then None
             else Some (if negative then - v else v)))"

section \<open>Record model\<close>

datatype PacketType = SEND | RECEIVE

text \<open>\<open>PacketType(n)\<close>: the member with value \<open>n\<close>, or \<open>ValueError\<close>.\<close>

definition PacketType_of :: "int \<Rightarrow> exn + PacketType" where
  "PacketType_of n = (if n = 1 then Inr SEND else if n = 0 then Inr RECEIVE else Inl ValueError)"

record Packet =
  type :: PacketType
  header :: pystr
  content :: pystr

text \<open>
  \<open>Packet.from_string\<close>. \<open>None\<close> is Python's \<open>None\<close>; the two parts after the first
  are the two remaining constructor arguments.
\<close>

definition from_string :: "pystr \<Rightarrow> exn + Packet option" where
  "from_string packet =
     (let parts = py_split 32 2 (py_strip packet) in
      if length parts < 3 then Inr None
      else (case py_int (parts ! 0) of
              None \<Rightarrow> Inl ValueError
            | Some n \<Rightarrow>
               (case PacketType_of n of
                  Inl e \<Rightarrow> Inl e
                | Inr t \<Rightarrow> Inr (Some \<lparr>type = t, header = parts ! 1, content = parts ! 2\<rparr>))))"

section \<open>Connection\<close>

text \<open>
  The socket is outside the program. Its read side is modelled by what it will
  deliver: each element is one arrival of octets or one failing read (\<open>OSError\<close>);
  once nothing is left the peer has closed the connection and every further
  \<open>recv\<close> returns the empty \<open>bytes\<close> object. \<open>recv(bufsize)\<close> hands out at most
  \<open>bufsize\<close> octets of an arrival and leaves the others for the next call.
\<close>

datatype recv_event = Recv "byte list" | RecvError

type_synonym socket = "recv_event list"

definition recv :: "nat \<Rightarrow> socket \<Rightarrow> (exn + byte list) \<times> socket" where
  "recv bufsize sock =
     (case sock of
        [] \<Rightarrow> (Inr [], [])
      | RecvError # rest \<Rightarrow> (Inl OSError, rest)
      | Recv bs # rest \<Rightarrow>
          (if length bs \<le> bufsize then (Inr bs, rest)
           else (Inr (take bufsize bs), Recv (drop bufsize bs) # rest)))"

definition BUFFER_SIZE :: nat where
  "BUFFER_SIZE = 1024 * 8"

definition DELIM :: pychar where
  "DELIM = 13"

text \<open>
  \<open>DELIM\<close> is the string of the one character carriage return; \<open>DELIM in buffer\<close>
  and \<open>buffer.split(DELIM, 1)\<close> are membership of and splitting at that character.

  \<open>PacketLogger.read\<close>: one \<open>recv\<close>, decoded.
\<close>

definition read :: "socket \<Rightarrow> (exn + pystr) \<times> socket" where
  "read sock =
     (case recv BUFFER_SIZE sock of
        (Inl e, sock') \<Rightarrow> (Inl e, sock')
      | (Inr bs, sock') \<Rightarrow> (decode bs, sock'))"

text \<open>
  \<open>PacketLogger.send\<close> and \<open>PacketLogger.receive\<close>. The write side of the socket is
  the sequence of octets handed to it so far, the socket being taken to accept
  the whole argument of each \<open>socket.send\<close>; an encoding error leaves it as it was.
\<close>

definition send :: "pystr \<Rightarrow> byte list \<Rightarrow> (exn + unit) \<times> byte list" where
  "send packet wire =
     (case encode (str ''1 '' @ packet @ [13]) of
        Inl e \<Rightarrow> (Inl e, wire)
      | Inr bs \<Rightarrow> (Inr (), wire @ bs))"

definition receive :: "pystr \<Rightarrow> byte list \<Rightarrow> (exn + unit) \<times> byte list" where
  "receive packet wire =
     (case encode (str ''0 '' @ packet @ [13]) of
        Inl e \<Rightarrow> (Inl e, wire)
      | Inr bs \<Rightarrow> (Inr (), wire @ bs))"

section \<open>Framing reader\<close>

text \<open>
  \<open>PacketIterator\<close> keeps the text read but not yet returned; the connection it
  reads from is passed to each operation and returned as the reads leave it.
\<close>

record PacketIterator =
  buffer :: pystr

definition init :: PacketIterator where
  "init = \<lparr>buffer = []\<rparr>"

text \<open>\<open>__read_data\<close>: a failing read gives \<open>None\<close>; other exceptions pass.\<close>

definition read_data :: "socket \<Rightarrow> (exn + pystr option) \<times> socket" where
  "read_data sock =
     (case read sock of
        (Inl e, sock') \<Rightarrow> (if e = OSError then (Inr None, sock') else (Inl e, sock'))
      | (Inr s, sock') \<Rightarrow> (Inr (Some s), sock'))"

definition check_none :: "'a option \<Rightarrow> exn \<Rightarrow> exn + 'a" where
  "check_none v exception = (case v of None \<Rightarrow> Inl exception | Some x \<Rightarrow> Inr x)"

text \<open>
  The \<open>while\<close> loop of \<open>__next__\<close>. It calls \<open>read\<close>, not \<open>__read_data\<close>, and it may
  run forever: the value \<open>None\<close> of the option type is the call that does not
  return.
\<close>

partial_function (option)
  read_until_delim :: "pystr \<Rightarrow> socket \<Rightarrow> ((exn + pystr) \<times> socket) option"
where
  "read_until_delim buf sock =
     (if DELIM \<notin> set buf
      then (case read sock of
              (Inl e, sock') \<Rightarrow> Some (Inl e, sock')
            | (Inr more', sock') \<Rightarrow> read_until_delim (buf @ more') sock')
      else Some (Inr buf, sock))"

declare read_until_delim.simps [code]

text \<open>
  \<open>__next__\<close> up to the end of its loop: the result is the local variable
  \<open>buffer\<close>, the working chunk, together with the iterator and the socket as the
  statements so far have left them.
\<close>

definition working_chunk ::
  "PacketIterator \<Rightarrow> socket \<Rightarrow> ((exn + pystr) \<times> PacketIterator \<times> socket) option" where
  "working_chunk it sock =
     (case (if buffer it \<noteq> [] then (Inr (Some (buffer it)), sock) else read_data sock) of
        (Inl e, sock1) \<Rightarrow> Some (Inl e, it, sock1)
      | (Inr v, sock1) \<Rightarrow>
         (case check_none v StopIteration of
            Inl e \<Rightarrow> Some (Inl e, it, sock1)
          | Inr buf \<Rightarrow>
             (if DELIM \<notin> set buf
              then (case read_data sock1 of
                      (Inl e, sock2) \<Rightarrow> Some (Inl e, it, sock2)
                    | (Inr m, sock2) \<Rightarrow>
                       (case check_none m StopIteration of
                          Inl e \<Rightarrow> Some (Inl e, it, sock2)
                        | Inr more' \<Rightarrow>
                           map_option (\<lambda>(r, sock3). (r, it\<lparr>buffer := buffer it @ more'\<rparr>, sock3))
                             (read_until_delim buf sock2)))
              else map_option (\<lambda>(r, sock3). (r, it, sock3)) (read_until_delim buf sock1))))"

text \<open>
  \<open>__next__\<close>: the working chunk is cut at its first delimiter. The unpacking of
  the two parts would raise \<open>ValueError\<close> on any other number of parts.
\<close>

definition iterator_next ::
  "PacketIterator \<Rightarrow> socket \<Rightarrow> ((exn + pystr) \<times> PacketIterator \<times> socket) option" where
  "iterator_next it sock =
     (case working_chunk it sock of
        None \<Rightarrow> None
      | Some (Inl e, it', sock') \<Rightarrow> Some (Inl e, it', sock')
      | Some (Inr w, it', sock') \<Rightarrow>
         (case py_split DELIM 1 w of
            [line, rest] \<Rightarrow> Some (Inr line, it'\<lparr>buffer := rest\<rparr>, sock')
          | _ \<Rightarrow> Some (Inl ValueError, it', sock')))"

section \<open>Registry of active connections\<close>

text \<open>
  \<open>PacketLogger.__instances\<close>, a dictionary from the identifier of a thread to a
  connection. \<open>dict.pop\<close> of a missing key raises \<open>KeyError\<close> and changes nothing.
\<close>

type_synonym 'c instances = "nat \<rightharpoonup> 'c"

definition set_global :: "nat \<Rightarrow> 'c \<Rightarrow> 'c instances \<Rightarrow> 'c instances" where
  "set_global ident self instances = instances(ident \<mapsto> self)"

definition unset_global :: "nat \<Rightarrow> 'c instances \<Rightarrow> (exn + unit) \<times> 'c instances" where
  "unset_global ident instances =
     (case instances ident of
        None \<Rightarrow> (Inl KeyError, instances)
      | Some _ \<Rightarrow> (Inr (), instances(ident := None)))"

definition get_global_instance :: "nat \<Rightarrow> 'c instances \<Rightarrow> 'c option" where
  "get_global_instance ident instances = instances ident"

text \<open>The registry operations one thread can perform, and a run of them.\<close>

datatype 'c registry_op = SetGlobal 'c | UnsetGlobal | GetGlobalInstance

fun registry_step :: "nat \<Rightarrow> 'c registry_op \<Rightarrow> 'c instances \<Rightarrow> 'c instances" where
  "registry_step ident (SetGlobal self) instances = set_global ident self instances"
| "registry_step ident UnsetGlobal instances = snd (unset_global ident instances)"
| "registry_step ident GetGlobalInstance instances = instances"

fun registry_run :: "nat \<Rightarrow> 'c registry_op list \<Rightarrow> 'c instances \<Rightarrow> 'c instances" where
  "registry_run ident [] instances = instances"
| "registry_run ident (op # ops) instances = registry_run ident ops (registry_step ident op instances)"

section \<open>Splitting on white space\<close>

text \<open>
  The specification describes the parts of a line as the result of splitting it
  on white space into at most three parts. Read literally this is Python's
  \<open>line.split(None, 2)\<close>: runs of white space separate the parts, an empty part
  never arises, and the last part is the remainder. It is defined here from the
  specification's words, for comparison with what \<open>from_string\<close> computes.
\<close>

fun spec_split_whitespace :: "nat \<Rightarrow> pystr \<Rightarrow> pystr list" where
  "spec_split_whitespace 0 s =
     (let s' = dropWhile py_isspace s in if s' = [] then [] else [s'])"
| "spec_split_whitespace (Suc n) s =
     (let s' = dropWhile py_isspace s in
      if s' = [] then []
      else takeWhile (\<lambda>c. \<not> py_isspace c) s'
             # spec_split_whitespace n (dropWhile (\<lambda>c. \<not> py_isspace c) s'))"

section \<open>Facts about the built-in operations\<close>

lemma py_split_no_sep: "sep \<notin> set s \<Longrightarrow> py_split sep n s = [s]"
  by (cases n) simp_all

lemma py_split_first:
  assumes "sep \<notin> set a"
  shows "py_split sep (Suc n) (a @ sep # r) = a # py_split sep n r"
proof -
  have ne: "\<And>x. x \<in> set a \<Longrightarrow> x \<noteq> sep" using assms by auto
  have "takeWhile (\<lambda>c. c \<noteq> sep) (a @ sep # r) = a"
    using ne by (simp add: takeWhile_append2)
  moreover have "dropWhile (\<lambda>c. c \<noteq> sep) (a @ sep # r) = sep # r"
    using ne by (simp add: dropWhile_append2)
  ultimately show ?thesis by simp
qed

lemma py_split_at_delim:
  assumes "sep \<in> set w"
  shows "\<exists>line rest. py_split sep (Suc 0) w = [line, rest] \<and> w = line @ sep # rest \<and> sep \<notin> set line"
proof -
  let ?line = "takeWhile (\<lambda>c. c \<noteq> sep) w" and ?d = "dropWhile (\<lambda>c. c \<noteq> sep) w"
  from assms have dne: "?d \<noteq> []" by (simp add: dropWhile_eq_Nil_conv)
  then have "hd ?d = sep" using hd_dropWhile [of "\<lambda>c. c \<noteq> sep" w] by simp
  with dne have d: "?d = sep # tl ?d" by (cases ?d) simp_all
  have "w = ?line @ ?d" by simp
  with d have w: "w = ?line @ sep # tl ?d" by simp
  have nl: "sep \<notin> set ?line" by (auto dest: set_takeWhileD)
  from assms have "py_split sep (Suc 0) w = [?line, tl ?d]" by simp
  with w nl show ?thesis by blast
qed

lemma count_list_split:
  "sep \<in> set s \<Longrightarrow> count_list s sep = Suc (count_list (tl (dropWhile (\<lambda>c. c \<noteq> sep) s)) sep)"
  by (induction s) auto

lemma length_py_split: "length (py_split sep n s) = Suc (min n (count_list s sep))"
proof (induction n arbitrary: s)
  case 0
  show ?case by simp
next
  case (Suc n)
  show ?case
  proof (cases "sep \<in> set s")
    case True
    with Suc count_list_split [OF True] show ?thesis by simp
  next
    case False
    then have "count_list s sep = 0" by (induction s) auto
    with False show ?thesis by simp
  qed
qed

lemma py_split_three:
  assumes "sep \<notin> set d" and "sep \<notin> set h"
  shows "py_split sep 2 (d @ sep # h @ sep # c) = [d, h, c]"
proof -
  have "py_split sep (Suc (Suc 0)) (d @ sep # h @ sep # c) = d # py_split sep (Suc 0) (h @ sep # c)"
    using assms(1) by (rule py_split_first)
  also have "py_split sep (Suc 0) (h @ sep # c) = h # py_split sep 0 c"
    using assms(2) by (rule py_split_first)
  finally show ?thesis by (simp add: numeral_2_eq_2)
qed

lemma three_parts_exist:
  assumes "2 \<le> count_list (s :: pystr) sep"
  shows "\<exists>d h c. s = d @ sep # h @ sep # c \<and> sep \<notin> set d \<and> sep \<notin> set h"
proof -
  from assms have "sep \<in> set s" by (metis count_notin not_numeral_le_zero)
  from py_split_at_delim [OF this] obtain d r where s: "s = d @ sep # r" and d: "sep \<notin> set d" by blast
  with assms d have "1 \<le> count_list r sep" by (simp add: count_list_0_iff)
  then have "sep \<in> set r" by (metis count_notin not_one_le_zero)
  from py_split_at_delim [OF this] obtain h c where "r = h @ sep # c" and "sep \<notin> set h" by blast
  with s d show ?thesis by blast
qed


lemma py_int_one: "py_int [49] = Some 1"
  by (simp add: py_int_def to_ascii_char_def c_isspace_def is_digit_def int_max_str_digits_def)

lemma py_rstrip_append:
  "py_rstrip (a @ b) = (if py_rstrip b = [] then py_rstrip a else a @ py_rstrip b)"
  by (auto simp: py_rstrip_def dropWhile_append dropWhile_eq_Nil_conv)

lemma py_strip_one_payload:
  "py_strip (str ''1 '' @ P) = (if py_rstrip P = [] then [49] else 49 # 32 # py_rstrip P)"
proof -
  have "dropWhile py_isspace (str ''1 '' @ P) = str ''1 '' @ P"
    by (simp add: str_def py_isspace_def)
  moreover have "py_rstrip (str ''1 '') = [49]"
    by (simp add: str_def py_rstrip_def py_isspace_def)
  ultimately show ?thesis
    by (simp add: py_strip_def py_rstrip_append) (simp add: str_def)
qed

section \<open>Facts about \<open>from_string\<close>\<close>

lemma from_string_few_parts:
  "count_list (py_strip line) 32 < 2 \<Longrightarrow> from_string line = Inr None"
  by (simp add: from_string_def Let_def length_py_split del: py_split.simps)

lemma from_string_three_parts:
  assumes "py_strip line = d @ 32 # h @ 32 # c" and "32 \<notin> set d" and "32 \<notin> set h"
  shows "from_string line =
           (case py_int d of
              None \<Rightarrow> Inl ValueError
            | Some n \<Rightarrow>
               (case PacketType_of n of
                  Inl e \<Rightarrow> Inl e
                | Inr t \<Rightarrow> Inr (Some \<lparr>type = t, header = h, content = c\<rparr>)))"
  using py_split_three [OF assms(2,3), of c]
  by (simp add: from_string_def assms(1) Let_def numeral_2_eq_2 del: py_split.simps
      split: option.splits sum.splits)

lemma from_string_one_no_space:
  assumes "32 \<notin> set (py_rstrip P)"
  shows "from_string (str ''1 '' @ P) = Inr None"
proof -
  have "count_list (py_strip (str ''1 '' @ P)) 32 < 2"
    using assms by (simp add: py_strip_one_payload count_list_0_iff)
  then show ?thesis by (rule from_string_few_parts)
qed

lemma from_string_one_payload:
  assumes "py_rstrip P = h @ 32 # c" and "32 \<notin> set h"
  shows "from_string (str ''1 '' @ P) = Inr (Some \<lparr>type = SEND, header = h, content = c\<rparr>)"
proof -
  from assms(1) have "py_strip (str ''1 '' @ P) = [49] @ 32 # h @ 32 # c"
    by (simp add: py_strip_one_payload)
  from from_string_three_parts [OF this _ assms(2)] show ?thesis
    by (simp add: py_int_one PacketType_of_def)
qed

section \<open>Facts about the codec\<close>

text \<open>The undefined entries of the table are those of the octets \<open>81\<close>, \<open>8D\<close>, \<open>8F\<close>, \<open>90\<close>, \<open>9D\<close>.\<close>

lemma cp1252_high_enum:
  "list_all (\<lambda>(i, x). (x = None) = (i \<in> {1, 13, 15, 16, 29})) (enumerate 0 cp1252_high)"
  by (simp add: cp1252_high_def)

lemma cp1252_high_None: 
  assumes "i < 32" shows "(cp1252_high ! i = None) = (i \<in> {1, 13, 15, 16, 29})"
proof -
  have len: "length cp1252_high = 32" by (simp add: cp1252_high_def)
  with assms have "enumerate 0 cp1252_high ! i = (i, cp1252_high ! i)"
    by (simp add: nth_enumerate_eq)
  moreover from assms len have "i < length (enumerate 0 cp1252_high)" by simp
  ultimately show ?thesis
    using cp1252_high_enum unfolding list_all_length by fastforce
qed

lemma decode_byte_None: "(decode_byte b = None) = (b \<in> {0x81, 0x8D, 0x8F, 0x90, 0x9D})"
proof (cases "unat b < 0x80 \<or> 0xA0 \<le> unat b")
  case True
  then have "decode_byte b \<noteq> None" by (simp add: decode_byte_def)
  moreover from True have "b \<notin> {0x81, 0x8D, 0x8F, 0x90, 0x9D}"
    by (auto simp: word_unat_eq_iff)
  ultimately show ?thesis by simp
next
  case False
  then have i: "unat b - 0x80 < 32" by auto
  from False have "decode_byte b = cp1252_high ! (unat b - 0x80)" by (simp add: decode_byte_def Let_def)
  with cp1252_high_None [OF i] have "(decode_byte b = None) = (unat b - 0x80 \<in> {1, 13, 15, 16, 29})" by simp
  also from False have "\<dots> = (unat b \<in> {0x81, 0x8D, 0x8F, 0x90, 0x9D})" by auto
  also have "\<dots> = (b \<in> {0x81, 0x8D, 0x8F, 0x90, 0x9D})" by (auto simp: word_unat_eq_iff)
  finally show ?thesis .
qed

lemma decode_Inl: "decode bs = Inl e \<Longrightarrow> e = UnicodeDecodeError"
  by (induction bs) (auto split: option.splits sum.splits)

lemma decode_defined:
  "(\<exists>s. decode bs = Inr s \<and> length s = length bs) = (set bs \<inter> {0x81, 0x8D, 0x8F, 0x90, 0x9D} = {})"
proof (induction bs)
  case Nil
  show ?case by simp
next
  case (Cons b bs)
  show ?case
  proof (cases "decode_byte b")
    case None
    then show ?thesis using decode_byte_None [of b] by auto
  next
    case (Some c)
    then have "b \<notin> {0x81, 0x8D, 0x8F, 0x90, 0x9D}" using decode_byte_None [of b] by auto
    with Some Cons show ?thesis by (cases "decode bs") auto
  qed
qed

text \<open>Encoding is a right inverse of decoding: what can be written is read back unchanged.\<close>

lemma encode_char_decode_byte:
  assumes "encode_char c = Some b" shows "decode_byte b = Some c"
proof (cases "c < 0x80 \<or> (0xA0 \<le> c \<and> c \<le> 0xFF)")
  case True
  with assms have b: "b = of_nat c" by (simp add: encode_char_def)
  from True have "c < 2 ^ 8" by auto
  then have "unat (of_nat c :: 8 word) = c" by (simp add: unat_of_nat)
  with b True show ?thesis by (auto simp add: decode_byte_def)
next
  case False
  with assms obtain i where f: "List.find (\<lambda>i. cp1252_high ! i = Some c) [0..<32] = Some i"
    and b: "b = of_nat (0x80 + i)" by (auto simp: encode_char_def)
  from f have i: "i < 32" and t: "cp1252_high ! i = Some c"
    by (auto simp: find_Some_iff)
  from i have "0x80 + i < (2::nat) ^ 8" by simp
  then have "unat (of_nat (0x80 + i) :: 8 word) = 0x80 + i" by (simp only: unat_of_nat) simp
  with b i t show ?thesis by (simp add: decode_byte_def)
qed

lemma encode_decode:
  "encode s = Inr bs \<Longrightarrow> decode bs = Inr s \<and> length bs = length s"
  by (induction s arbitrary: bs) (auto split: option.splits sum.splits dest: encode_char_decode_byte)

lemma encode_append:
  "encode (a @ b) =
     (case encode a of Inl e \<Rightarrow> Inl e
      | Inr x \<Rightarrow> (case encode b of Inl e \<Rightarrow> Inl e | Inr y \<Rightarrow> Inr (x @ y)))"
  by (induction a) (auto split: option.splits sum.splits)

lemma encode_Inl: "encode s = Inl e \<Longrightarrow> e = UnicodeEncodeError"
  by (induction s arbitrary: e) (auto split: option.splits sum.splits)

section \<open>Facts about the read loop\<close>

lemma read_closed: "read [] = (Inr [], [])"
  by (simp add: read_def recv_def)

lemma read_until_delim_found:
  "DELIM \<in> set buf \<Longrightarrow> read_until_delim buf sock = Some (Inr buf, sock)"
  by (simp add: read_until_delim.simps)

text \<open>
  On a closed connection every read returns the empty text, so a loop entered
  without a delimiter in the working chunk cannot leave: whenever the loop returns,
  it either had a delimiter already or the connection still had something to give.
\<close>

lemma read_until_delim_returns:
  assumes "read_until_delim buf sock = Some y"
  shows "DELIM \<in> set buf \<or> sock \<noteq> []"
proof (rule read_until_delim.raw_induct [OF _ assms])
  fix loop :: "pystr \<Rightarrow> socket \<Rightarrow> ((exn + pystr) \<times> socket) option" and b s r
  assume IH: "\<And>b' s' r'. loop b' s' = Some r' \<Longrightarrow> DELIM \<in> set b' \<or> s' \<noteq> []"
    and step: "(if DELIM \<notin> set b
      then case read s of (Inl e, sock') \<Rightarrow> Some (Inl e, sock')
           | (Inr more', sock') \<Rightarrow> loop (b @ more') sock'
      else Some (Inr b, s)) = Some r"
  show "DELIM \<in> set b \<or> s \<noteq> []"
  proof (rule ccontr)
    assume "\<not> (DELIM \<in> set b \<or> s \<noteq> [])"
    then have nd: "DELIM \<notin> set b" and cl: "s = []" by simp_all
    from step nd cl have "loop b [] = Some r" by (simp add: read_closed)
    from IH[OF this] nd show False by simp
  qed
qed

lemma read_until_delim_closed: "DELIM \<notin> set buf \<Longrightarrow> read_until_delim buf [] = None"
  using read_until_delim_returns [of buf "[]"] by (cases "read_until_delim buf []") auto

text \<open>A working chunk that the loop hands on contains a delimiter.\<close>

lemma read_until_delim_has_delim:
  assumes "read_until_delim buf sock = Some y"
  shows "\<forall>w. fst y = Inr w \<longrightarrow> DELIM \<in> set w"
proof (rule read_until_delim.raw_induct [OF _ assms])
  fix loop :: "pystr \<Rightarrow> socket \<Rightarrow> ((exn + pystr) \<times> socket) option" and b s r
  assume IH: "\<And>b' s' r'. loop b' s' = Some r' \<Longrightarrow> \<forall>w. fst r' = Inr w \<longrightarrow> DELIM \<in> set w"
    and step: "(if DELIM \<notin> set b
      then case read s of (Inl e, sock') \<Rightarrow> Some (Inl e, sock')
           | (Inr more', sock') \<Rightarrow> loop (b @ more') sock'
      else Some (Inr b, s)) = Some r"
  show "\<forall>w. fst r = Inr w \<longrightarrow> DELIM \<in> set w"
  proof (cases "DELIM \<in> set b")
    case True
    with step show ?thesis by auto
  next
    case False
    obtain x s' where rs: "read s = (x, s')" by (cases "read s")
    show ?thesis
    proof (cases x)
      case (Inl e)
      with step False rs show ?thesis by auto
    next
      case (Inr m)
      with step False rs have "loop (b @ m) s' = Some r" by simp
      then show ?thesis by (rule IH)
    qed
  qed
qed

lemma read_until_delim_Inr:
  "read_until_delim buf sock = Some (Inr w, sock0) \<Longrightarrow> DELIM \<in> set w"
  using read_until_delim_has_delim [of buf sock "(Inr w, sock0)"] by simp

lemma working_chunk_has_delim:
  assumes "working_chunk it sock = Some (Inr w, it0, sock0)"
  shows "DELIM \<in> set w"
  using assms unfolding working_chunk_def check_none_def
  by (auto split: if_splits prod.splits sum.splits option.splits dest: read_until_delim_Inr)

lemma working_chunk_closed:
  "DELIM \<notin> set (buffer it) \<Longrightarrow> working_chunk it [] = None"
  by (simp add: working_chunk_def read_data_def read_closed check_none_def read_until_delim_closed)

section \<open>Framing reader: the claims\<close>

text \<open>
  Claim C1. However the bytes of a stream are divided among the reads, the reader
  produces the same lines; in particular every further chunk read while the
  delimiter is missing is appended to the working chunk and none is dropped.

  The code does not do this. The chunk read in the \<open>if\<close> statement of \<open>__next__\<close> is
  appended to \<open>self.__buffer\<close>, not to the working chunk, and \<open>self.__buffer\<close> is
  overwritten at the end of the call. The bytes \<open>ab\r c\r\<close> arriving as \<open>a\<close>,
  \<open>b\r\<close>, \<open>c\r\<close> give the first line \<open>ac\<close>; arriving as \<open>ab\r\<close>, \<open>c\r\<close> they give \<open>ab\<close>.
\<close>

theorem chunk_dropped_between_reads:
  "iterator_next init [Recv (bytes ''a''), Recv (bytes ''b'' @ [13]), Recv (bytes ''c'' @ [13])]
     = Some (Inr (str ''ac''), \<lparr>buffer = []\<rparr>, []) \<and>
   iterator_next init [Recv (bytes ''ab'' @ [13]), Recv (bytes ''c'' @ [13])]
     = Some (Inr (str ''ab''), \<lparr>buffer = []\<rparr>, [Recv (bytes ''c'' @ [13])])"
  by (simp add: iterator_next_def working_chunk_def init_def read_data_def read_def recv_def
      BUFFER_SIZE_def decode_byte_def check_none_def DELIM_def read_until_delim.simps
      str_def bytes_def)

text \<open>
  Claim C2. When a read made by \<open>__next__\<close> meets the end of the stream and no
  delimiter is available, the call ends the iteration (\<open>StopIteration\<close>) and drops
  the pending partial line, rather than blocking.

  The code does not do this. At the end of the stream \<open>recv\<close> returns the empty
  \<open>bytes\<close> object, so \<open>read\<close> returns the empty text and not \<open>None\<close>; no check
  raises, and the loop reads the empty text for ever. On a closed connection the
  call does not return, with an empty buffer as with a pending partial line.
\<close>

theorem end_of_stream_never_returns:
  "iterator_next init [] = None \<and> iterator_next \<lparr>buffer = str ''abc''\<rparr> [] = None"
  by (simp add: iterator_next_def working_chunk_closed init_def str_def DELIM_def)

text \<open>
  Claim C3. A transport read that fails with \<open>OSError\<close> during \<open>__next__\<close> ends the
  iteration like the end of the stream does; no call lets the error through.

  The code does not do this for the reads of the loop: the loop calls \<open>read\<close>
  directly, where the two reads before it go through \<open>__read_data\<close>, which turns
  \<open>OSError\<close> into \<open>None\<close>. A failure of the third read of a call reaches the caller
  as \<open>OSError\<close>.
\<close>

theorem read_error_in_loop_propagates:
  "iterator_next init [Recv (bytes ''a''), Recv (bytes ''b''), RecvError]
     = Some (Inl OSError, \<lparr>buffer = str ''b''\<rparr>, [])"
  by (simp add: iterator_next_def working_chunk_def init_def read_data_def read_def recv_def
      BUFFER_SIZE_def decode_byte_def check_none_def DELIM_def read_until_delim.simps
      str_def bytes_def)

text \<open>
  Claim C4. When one read returns a chunk with exactly two delimiters, the first
  call of \<open>__next__\<close> on a new reader returns the text before the first delimiter,
  and the next call returns the text between the two delimiters without reading
  from the transport: whatever the connection \<open>sock2\<close> holds at that moment, it is
  left as it is.
\<close>

theorem two_lines_from_one_chunk:
  assumes "read sock = (Inr (a @ DELIM # b @ DELIM # r), sock')"
    and "DELIM \<notin> set a" and "DELIM \<notin> set b" and "DELIM \<notin> set r"
  shows "iterator_next init sock = Some (Inr a, \<lparr>buffer = b @ DELIM # r\<rparr>, sock') \<and>
         iterator_next \<lparr>buffer = b @ DELIM # r\<rparr> sock2 = Some (Inr b, \<lparr>buffer = r\<rparr>, sock2)"
proof -
  have s1: "py_split DELIM (Suc 0) (a @ DELIM # b @ DELIM # r) = [a, b @ DELIM # r]"
    using py_split_first [OF assms(2), of 0] by simp
  have s2: "py_split DELIM (Suc 0) (b @ DELIM # r) = [b, r]"
    using py_split_first [OF assms(3), of 0] by simp
  have "working_chunk init sock = Some (Inr (a @ DELIM # b @ DELIM # r), init, sock')"
    using assms(1)
    by (simp add: working_chunk_def init_def read_data_def check_none_def read_until_delim_found)
  then have first: "iterator_next init sock = Some (Inr a, \<lparr>buffer = b @ DELIM # r\<rparr>, sock')"
    by (simp add: iterator_next_def s1 init_def del: py_split.simps)
  have "working_chunk \<lparr>buffer = b @ DELIM # r\<rparr> sock2
          = Some (Inr (b @ DELIM # r), \<lparr>buffer = b @ DELIM # r\<rparr>, sock2)"
    by (simp add: working_chunk_def check_none_def read_until_delim_found)
  then have "iterator_next \<lparr>buffer = b @ DELIM # r\<rparr> sock2 = Some (Inr b, \<lparr>buffer = r\<rparr>, sock2)"
    by (simp add: iterator_next_def s2 del: py_split.simps)
  with first show ?thesis by simp
qed

theorem two_lines_from_one_chunk_witness:
  "read [Recv (bytes ''a'' @ [13] @ bytes ''b'' @ [13])]
     = (Inr (str ''a'' @ DELIM # str ''b'' @ DELIM # []), []) \<and>
   DELIM \<notin> set (str ''a'') \<and> DELIM \<notin> set (str ''b'') \<and>
   iterator_next init [Recv (bytes ''a'' @ [13] @ bytes ''b'' @ [13])]
     = Some (Inr (str ''a''), \<lparr>buffer = str ''b'' @ DELIM # []\<rparr>, []) \<and>
   iterator_next \<lparr>buffer = str ''b'' @ DELIM # []\<rparr> [RecvError]
     = Some (Inr (str ''b''), \<lparr>buffer = []\<rparr>, [RecvError])"
proof -
  have r: "read [Recv (bytes ''a'' @ [13] @ bytes ''b'' @ [13])]
             = (Inr (str ''a'' @ DELIM # str ''b'' @ DELIM # []), [])"
    by (simp add: read_def recv_def BUFFER_SIZE_def bytes_def str_def decode_byte_def DELIM_def)
  have a: "DELIM \<notin> set (str ''a'')" and b: "DELIM \<notin> set (str ''b'')" and c: "DELIM \<notin> set []"
    by (simp_all add: str_def DELIM_def)
  from two_lines_from_one_chunk [OF r a b c, of "[RecvError]"] r a b show ?thesis by simp
qed

text \<open>
  Claim C5. After every successful extraction of a line the buffer of the reader
  contains no delimiter; the extraction removes exactly one delimiter and
  everything before it.

  The first half fails: what follows the first delimiter of the working chunk is
  kept as it is, later delimiters included (claim C4 relies on it). After the
  chunk \<open>a\r b\r\<close> the first call leaves \<open>b\r\<close> in the buffer.
\<close>

theorem buffer_keeps_later_delimiters:
  "iterator_next init [Recv (bytes ''a'' @ [13] @ bytes ''b'' @ [13])]
     = Some (Inr (str ''a''), \<lparr>buffer = str ''b'' @ [13]\<rparr>, []) \<and>
   DELIM \<in> set (buffer \<lparr>buffer = str ''b'' @ [13]\<rparr>)"
  by (simp add: iterator_next_def working_chunk_def init_def read_data_def read_def recv_def
      BUFFER_SIZE_def decode_byte_def check_none_def DELIM_def read_until_delim.simps
      str_def bytes_def)

text \<open>
  Claim C5 as amended. After every successful extraction the returned line
  contains no delimiter, and the working chunk of the call is the line, one
  delimiter and the new buffer: the extraction removes exactly the first
  delimiter and everything before it. The new buffer may contain delimiters.
\<close>

theorem extraction_cuts_at_first_delimiter:
  assumes "iterator_next it sock = Some (Inr line, it', sock')"
  shows "DELIM \<notin> set line \<and>
         (\<exists>it0. working_chunk it sock = Some (Inr (line @ DELIM # buffer it'), it0, sock'))"
proof -
  from assms obtain x it0 sock0 where wc: "working_chunk it sock = Some (x, it0, sock0)"
    unfolding iterator_next_def by (cases "working_chunk it sock") auto
  from assms wc obtain w where x: "x = Inr w"
    unfolding iterator_next_def by (cases x) auto
  from wc x have "DELIM \<in> set w" by (simp add: working_chunk_has_delim)
  from py_split_at_delim [OF this] obtain l rest
    where sp: "py_split DELIM (Suc 0) w = [l, rest]" "w = l @ DELIM # rest" "DELIM \<notin> set l"
    by blast
  from assms wc x sp(1) have "line = l" "buffer it' = rest" "sock' = sock0"
    unfolding iterator_next_def by (auto simp del: py_split.simps)
  with wc x sp show ?thesis by simp
qed

theorem extraction_cuts_at_first_delimiter_witness:
  "iterator_next init [Recv (bytes ''a'' @ [13] @ bytes ''b'' @ [13])]
     = Some (Inr (str ''a''), \<lparr>buffer = str ''b'' @ [13]\<rparr>, []) \<and>
   DELIM \<notin> set (str ''a'') \<and>
   (\<exists>it0. working_chunk init [Recv (bytes ''a'' @ [13] @ bytes ''b'' @ [13])]
      = Some (Inr (str ''a'' @ DELIM # buffer \<lparr>buffer = str ''b'' @ [13]\<rparr>), it0, []))"
proof -
  have r: "iterator_next init [Recv (bytes ''a'' @ [13] @ bytes ''b'' @ [13])]
             = Some (Inr (str ''a''), \<lparr>buffer = str ''b'' @ [13]\<rparr>, [])"
    by (simp add: iterator_next_def working_chunk_def init_def read_data_def read_def recv_def
        BUFFER_SIZE_def decode_byte_def check_none_def DELIM_def read_until_delim.simps
        str_def bytes_def)
  from extraction_cuts_at_first_delimiter [OF r] r show ?thesis by simp
qed

section \<open>Record model: the claims\<close>

lemmas eval_from_string = from_string_def str_def py_strip_def py_rstrip_def py_isspace_def py_int_def
      to_ascii_char_def c_isspace_def is_digit_def PacketType_of_def int_max_str_digits_def
      numeral_2_eq_2

text \<open>
  Claim C6. For every line, \<open>parse\<close> splits the line on white space into at most
  three parts; fewer than three parts give no record; three parts of which the
  first is not a direction code (0 or 1) give a decoding error; otherwise the
  result is the record with the second part as header and the third part, the
  remainder, as content. In particular \<open>1 cond\<close> gives no record,
  \<open>0 mv hello world\<close> the inbound record with header \<open>mv\<close> and content
  \<open>hello world\<close>, and \<open>9 x y\<close> a decoding error.

  The parts the code works with are not those of a split on white space: the code
  trims the line and cuts it at its first two blanks (\<open>U+0020\<close>, code point 32)
  and at no other white space. The line \<open>1 a<TAB>b\<close> has the three parts \<open>1\<close>,
  \<open>a\<close>, \<open>b\<close> when split on white space, and the code returns no record for it.
  On the line \<open>0  mv x\<close>, with two blanks after the code, a split on white space
  gives the parts \<open>0\<close>, \<open>mv\<close>, \<open>x\<close>, while the code returns the record with the
  empty header and the content \<open>mv x\<close>.
\<close>

theorem whitespace_split_differs:
  "spec_split_whitespace 2 (str ''1 a'' @ [9] @ str ''b'') = [str ''1'', str ''a'', str ''b''] \<and>
   from_string (str ''1 a'' @ [9] @ str ''b'') = Inr None \<and>
   spec_split_whitespace 2 (str ''0  mv x'') = [str ''0'', str ''mv'', str ''x''] \<and>
   from_string (str ''0  mv x'')
     = Inr (Some \<lparr>type = RECEIVE, header = [], content = str ''mv x''\<rparr>)"
  by (simp add: eval_from_string)

text \<open>
  Claim C6 as amended. For every line, \<open>parse\<close> removes the white space at both
  ends and cuts the rest at its first two blanks into at most three parts. With
  fewer than two blanks there are fewer than three parts and the result is no
  record. Otherwise the trimmed line is \<open>d\<close>, a blank, \<open>h\<close>, a blank and \<open>c\<close> with no
  blank in \<open>d\<close> and \<open>h\<close>; these are the three parts, and the result is the record
  with header \<open>h\<close> and content \<open>c\<close>, outbound when \<open>int(d)\<close> is 1 and inbound when it
  is 0, and a \<open>ValueError\<close> when \<open>int(d)\<close> is neither. The three examples of the
  claim hold.
\<close>

theorem from_string_splits_at_spaces:
  "(count_list (py_strip line) 32 < 2 \<longrightarrow> from_string line = Inr None) \<and>
   (2 \<le> count_list (py_strip line) 32 \<longrightarrow>
      (\<exists>d h c. py_strip line = d @ 32 # h @ 32 # c \<and> 32 \<notin> set d \<and> 32 \<notin> set h)) \<and>
   (py_strip line = d @ 32 # h @ 32 # c \<and> 32 \<notin> set d \<and> 32 \<notin> set h \<longrightarrow>
      py_split 32 2 (py_strip line) = [d, h, c] \<and>
      (py_int d = Some 1 \<longrightarrow>
         from_string line = Inr (Some \<lparr>type = SEND, header = h, content = c\<rparr>)) \<and>
      (py_int d = Some 0 \<longrightarrow>
         from_string line = Inr (Some \<lparr>type = RECEIVE, header = h, content = c\<rparr>)) \<and>
      (py_int d \<noteq> Some 1 \<and> py_int d \<noteq> Some 0 \<longrightarrow> from_string line = Inl ValueError)) \<and>
   from_string (str ''1 cond'') = Inr None \<and>
   from_string (str ''0 mv hello world'')
     = Inr (Some \<lparr>type = RECEIVE, header = str ''mv'', content = str ''hello world''\<rparr>) \<and>
   from_string (str ''9 x y'') = Inl ValueError"
proof -
  have few: "count_list (py_strip line) 32 < 2 \<longrightarrow> from_string line = Inr None"
    by (simp add: from_string_few_parts)
  have ex: "2 \<le> count_list (py_strip line) 32 \<longrightarrow>
      (\<exists>d h c. py_strip line = d @ 32 # h @ 32 # c \<and> 32 \<notin> set d \<and> 32 \<notin> set h)"
    using three_parts_exist [of "py_strip line" 32] by blast
  have three: "py_strip line = d @ 32 # h @ 32 # c \<and> 32 \<notin> set d \<and> 32 \<notin> set h \<longrightarrow>
      py_split 32 2 (py_strip line) = [d, h, c] \<and>
      (py_int d = Some 1 \<longrightarrow>
         from_string line = Inr (Some \<lparr>type = SEND, header = h, content = c\<rparr>)) \<and>
      (py_int d = Some 0 \<longrightarrow>
         from_string line = Inr (Some \<lparr>type = RECEIVE, header = h, content = c\<rparr>)) \<and>
      (py_int d \<noteq> Some 1 \<and> py_int d \<noteq> Some 0 \<longrightarrow> from_string line = Inl ValueError)"
  proof
    assume a: "py_strip line = d @ 32 # h @ 32 # c \<and> 32 \<notin> set d \<and> 32 \<notin> set h"
    then have sp: "py_split 32 2 (py_strip line) = [d, h, c]"
      using py_split_three [of 32 d h c] by simp
    from a have fs: "from_string line =
           (case py_int d of
              None \<Rightarrow> Inl ValueError
            | Some n \<Rightarrow>
               (case PacketType_of n of
                  Inl e \<Rightarrow> Inl e
                | Inr t \<Rightarrow> Inr (Some \<lparr>type = t, header = h, content = c\<rparr>)))"
      using from_string_three_parts [of line d h c] by simp
    show "py_split 32 2 (py_strip line) = [d, h, c] \<and>
      (py_int d = Some 1 \<longrightarrow>
         from_string line = Inr (Some \<lparr>type = SEND, header = h, content = c\<rparr>)) \<and>
      (py_int d = Some 0 \<longrightarrow>
         from_string line = Inr (Some \<lparr>type = RECEIVE, header = h, content = c\<rparr>)) \<and>
      (py_int d \<noteq> Some 1 \<and> py_int d \<noteq> Some 0 \<longrightarrow> from_string line = Inl ValueError)"
      using sp fs by (cases "py_int d") (auto simp: PacketType_of_def)
  qed
  have e1: "from_string (str ''1 cond'') = Inr None" by (simp add: eval_from_string)
  have e2: "from_string (str ''0 mv hello world'')
     = Inr (Some \<lparr>type = RECEIVE, header = str ''mv'', content = str ''hello world''\<rparr>)"
    by (simp add: eval_from_string)
  have e3: "from_string (str ''9 x y'') = Inl ValueError" by (simp add: eval_from_string)
  from few ex three e1 e2 e3 show ?thesis by blast
qed

theorem from_string_splits_at_spaces_witness:
  "count_list (py_strip (str ''1 cond'')) 32 < 2 \<and> from_string (str ''1 cond'') = Inr None \<and>
   2 \<le> count_list (py_strip (str ''0 mv hello world'')) 32 \<and>
   py_strip (str ''0 mv hello world'') = str ''0'' @ 32 # str ''mv'' @ 32 # str ''hello world'' \<and>
   32 \<notin> set (str ''0'') \<and> 32 \<notin> set (str ''mv'') \<and> py_int (str ''0'') = Some 0 \<and>
   from_string (str ''0 mv hello world'')
     = Inr (Some \<lparr>type = RECEIVE, header = str ''mv'', content = str ''hello world''\<rparr>) \<and>
   py_strip (str ''9 x y'') = str ''9'' @ 32 # str ''x'' @ 32 # str ''y'' \<and>
   32 \<notin> set (str ''9'') \<and> 32 \<notin> set (str ''x'') \<and>
   py_int (str ''9'') \<noteq> Some 1 \<and> py_int (str ''9'') \<noteq> Some 0 \<and>
   from_string (str ''9 x y'') = Inl ValueError"
proof -
  have a: "count_list (py_strip (str ''1 cond'')) 32 < 2"
    and b: "2 \<le> count_list (py_strip (str ''0 mv hello world'')) 32"
    and b0: "py_strip (str ''0 mv hello world'') = str ''0'' @ 32 # str ''mv'' @ 32 # str ''hello world''"
    and b1: "32 \<notin> set (str ''0'')" and b2: "32 \<notin> set (str ''mv'')"
    and c0: "py_strip (str ''9 x y'') = str ''9'' @ 32 # str ''x'' @ 32 # str ''y''"
    and c1: "32 \<notin> set (str ''9'')" and c2: "32 \<notin> set (str ''x'')"
    by (simp_all add: str_def py_strip_def py_rstrip_def py_isspace_def)
  have i0: "py_int (str ''0'') = Some 0"
    and i9: "py_int (str ''9'') \<noteq> Some 1" "py_int (str ''9'') \<noteq> Some 0"
    by (simp_all add: eval_from_string)
  from from_string_splits_at_spaces [of "str ''1 cond''"] a
    from_string_splits_at_spaces [of "str ''0 mv hello world''" "str ''0''" "str ''mv''" "str ''hello world''"] b b0 b1 b2 i0
    from_string_splits_at_spaces [of "str ''9 x y''" "str ''9''" "str ''x''" "str ''y''"] c0 c1 c2 i9
  show ?thesis by simp
qed

text \<open>
  Claim C10. The direction token is recognised by its integer value, not by its
  spelling: a line of three parts whose first part has the integer value 1, such
  as \<open>01\<close> or \<open>+1\<close>, gives an outbound record, and one whose first part has the
  value 0 an inbound record, with the second and third part as header and
  content.
\<close>

theorem direction_by_integer_value:
  assumes "py_strip line = d @ 32 # h @ 32 # c" and "32 \<notin> set d" and "32 \<notin> set h"
  shows "(py_int d = Some 1 \<longrightarrow>
            from_string line = Inr (Some \<lparr>type = SEND, header = h, content = c\<rparr>)) \<and>
         (py_int d = Some 0 \<longrightarrow>
            from_string line = Inr (Some \<lparr>type = RECEIVE, header = h, content = c\<rparr>)) \<and>
         py_int (str ''01'') = Some 1 \<and> py_int (str ''+1'') = Some 1 \<and>
         py_int (str ''00'') = Some 0 \<and> py_int (str ''-0'') = Some 0"
proof -
  have "py_int (str ''01'') = Some 1" "py_int (str ''+1'') = Some 1"
       "py_int (str ''00'') = Some 0" "py_int (str ''-0'') = Some 0"
    by (simp_all add: eval_from_string)
  then show ?thesis
    using from_string_three_parts [OF assms] by (simp add: PacketType_of_def)
qed

theorem direction_by_integer_value_witness:
  "py_strip (str ''+1 walk 3 4 '') = str ''+1'' @ 32 # str ''walk'' @ 32 # str ''3 4'' \<and>
   32 \<notin> set (str ''+1'') \<and> 32 \<notin> set (str ''walk'') \<and> py_int (str ''+1'') = Some 1 \<and>
   from_string (str ''+1 walk 3 4 '')
     = Inr (Some \<lparr>type = SEND, header = str ''walk'', content = str ''3 4''\<rparr>) \<and>
   py_strip (str ''00 mv 1'') = str ''00'' @ 32 # str ''mv'' @ 32 # str ''1'' \<and>
   32 \<notin> set (str ''00'') \<and> 32 \<notin> set (str ''mv'') \<and> py_int (str ''00'') = Some 0 \<and>
   from_string (str ''00 mv 1'')
     = Inr (Some \<lparr>type = RECEIVE, header = str ''mv'', content = str ''1''\<rparr>)"
proof -
  have a: "py_strip (str ''+1 walk 3 4 '') = str ''+1'' @ 32 # str ''walk'' @ 32 # str ''3 4''"
    and a1: "32 \<notin> set (str ''+1'')" and a2: "32 \<notin> set (str ''walk'')"
    and b: "py_strip (str ''00 mv 1'') = str ''00'' @ 32 # str ''mv'' @ 32 # str ''1''"
    and b1: "32 \<notin> set (str ''00'')" and b2: "32 \<notin> set (str ''mv'')"
    by (simp_all add: str_def py_strip_def py_rstrip_def py_isspace_def)
  from direction_by_integer_value [OF a a1 a2] direction_by_integer_value [OF b b1 b2] a a1 a2 b b1 b2 show ?thesis by simp
qed

section \<open>Connection: the claims\<close>

text \<open>
  Claim C8. The decoding that \<open>read\<close> applies to the received bytes is total:
  every byte value from 0 to 255 maps to a character, so no received byte
  sequence fails to decode.

  Python's \<open>windows-1252\<close> codec leaves five byte values undefined, and \<open>read\<close>
  decodes strictly: a chunk holding the byte \<open>81\<close> makes \<open>read\<close> raise
  \<open>UnicodeDecodeError\<close>.
\<close>

theorem undefined_byte_fails_to_decode:
  "decode_byte 0x81 = None \<and> read [Recv [0x81]] = (Inl UnicodeDecodeError, [])"
  by (simp add: decode_byte_def cp1252_high_def read_def recv_def BUFFER_SIZE_def)

text \<open>
  Claim C8 as amended. The decoding maps every byte value other than \<open>81\<close>, \<open>8D\<close>,
  \<open>8F\<close>, \<open>90\<close> and \<open>9D\<close> (hexadecimal) to a character. A byte sequence without
  these five values decodes to a text with one character for each byte; a byte
  sequence with one of them fails to decode, with \<open>UnicodeDecodeError\<close>.
\<close>

theorem decode_defined_except_five:
  "(decode_byte b = None) = (b \<in> {0x81, 0x8D, 0x8F, 0x90, 0x9D}) \<and>
   (set bs \<inter> {0x81, 0x8D, 0x8F, 0x90, 0x9D} = {} \<longrightarrow> (\<exists>s. decode bs = Inr s \<and> length s = length bs)) \<and>
   (set bs \<inter> {0x81, 0x8D, 0x8F, 0x90, 0x9D} \<noteq> {} \<longrightarrow> decode bs = Inl UnicodeDecodeError)"
proof -
  have "set bs \<inter> {0x81, 0x8D, 0x8F, 0x90, 0x9D} \<noteq> {} \<Longrightarrow> decode bs = Inl UnicodeDecodeError"
  proof -
    assume "set bs \<inter> {0x81, 0x8D, 0x8F, 0x90, 0x9D} \<noteq> {}"
    with decode_defined [of bs] have n: "\<not> (\<exists>s. decode bs = Inr s \<and> length s = length bs)" by simp
    show "decode bs = Inl UnicodeDecodeError"
    proof (cases "decode bs")
      case (Inl e) then show ?thesis using decode_Inl by simp
    next
      case (Inr s)
      have "\<And>s. decode bs = Inr s \<Longrightarrow> length s = length bs"
        by (induction bs) (auto split: option.splits sum.splits)
      with Inr n show ?thesis by blast
    qed
  qed
  with decode_defined [of bs] decode_byte_None [of b] show ?thesis by blast
qed

theorem decode_defined_except_five_witness:
  "(decode_byte 0x41 = None) = (0x41 \<in> {0x81, 0x8D, 0x8F, 0x90, 0x9D :: byte}) \<and>
   set (bytes ''abc'' @ [0x80, 0xFF]) \<inter> {0x81, 0x8D, 0x8F, 0x90, 0x9D} = {} \<and>
   (\<exists>s. decode (bytes ''abc'' @ [0x80, 0xFF]) = Inr s \<and> length s = length (bytes ''abc'' @ [0x80, 0xFF])) \<and>
   set (bytes ''abc'' @ [0x9D]) \<inter> {0x81, 0x8D, 0x8F, 0x90, 0x9D} \<noteq> {} \<and>
   decode (bytes ''abc'' @ [0x9D]) = Inl UnicodeDecodeError"
proof -
  have a: "set (bytes ''abc'' @ [0x80, 0xFF]) \<inter> {0x81, 0x8D, 0x8F, 0x90, 0x9D} = {}"
    and b: "set (bytes ''abc'' @ [0x9D]) \<inter> {0x81, 0x8D, 0x8F, 0x90, 0x9D} \<noteq> {}"
    by (simp_all add: bytes_def)
  from decode_defined_except_five [of "0x41" "bytes ''abc'' @ [0x80, 0xFF]"] decode_defined_except_five [of "0x41" "bytes ''abc'' @ [0x9D]"] a b
  show ?thesis by simp
qed

text \<open>
  Claim C7. For every payload \<open>P\<close> without carriage return, \<open>send(P)\<close> writes
  exactly \<open>1\<close>, a blank, \<open>P\<close> and a carriage return; a reader at the other end
  then returns the line made of \<open>1\<close>, a blank and \<open>P\<close>; and parsing that line
  gives an outbound record whose header is the first token of \<open>P\<close> and whose
  content is the rest of \<open>P\<close>.

  The last part fails for a payload without a blank: for \<open>hello\<close> the line
  \<open>1 hello\<close> has two parts only, and \<open>from_string\<close> returns \<open>None\<close>.
\<close>

theorem payload_without_space_parses_absent:
  "DELIM \<notin> set (str ''hello'') \<and>
   send (str ''hello'') [] = (Inr (), bytes ''1 hello'' @ [13]) \<and>
   iterator_next init [Recv (bytes ''1 hello'' @ [13])]
     = Some (Inr (str ''1 hello''), \<lparr>buffer = []\<rparr>, []) \<and>
   from_string (str ''1 hello'') = Inr None"
proof -
  have "send (str ''hello'') [] = (Inr (), bytes ''1 hello'' @ [13])"
    by (simp add: send_def encode_char_def bytes_def str_def)
  moreover have "iterator_next init [Recv (bytes ''1 hello'' @ [13])]
     = Some (Inr (str ''1 hello''), \<lparr>buffer = []\<rparr>, [])"
    by (simp add: iterator_next_def working_chunk_def init_def read_data_def read_def recv_def
        BUFFER_SIZE_def decode_byte_def check_none_def DELIM_def read_until_delim.simps
        str_def bytes_def)
  moreover have "from_string (str ''1 hello'') = Inr None"
    by (simp add: eval_from_string)
  ultimately show ?thesis by (simp add: str_def DELIM_def)
qed

text \<open>
  Claim C7 as amended. Let \<open>P\<close> be a payload without carriage return that the
  codec can encode, to the bytes \<open>pbytes\<close>, and that fits one read together with
  its three framing characters. Then \<open>send(P)\<close> writes exactly the bytes of \<open>1\<close>
  and a blank, \<open>pbytes\<close> and a carriage return; a new reader that receives these
  bytes as one chunk returns the line made of \<open>1\<close>, a blank and \<open>P\<close>; and parsing
  that line gives no record when \<open>P\<close> without its trailing white space has no
  blank, and otherwise the outbound record whose header is \<open>P\<close> up to its first
  blank and whose content is what follows that blank, without the trailing white
  space.
\<close>

theorem send_read_parse:
  assumes "DELIM \<notin> set P" and "encode P = Inr pbytes" and "length P + 3 \<le> BUFFER_SIZE"
  shows "send P wire = (Inr (), wire @ bytes ''1 '' @ pbytes @ [13]) \<and>
         iterator_next init (Recv (bytes ''1 '' @ pbytes @ [13]) # sock)
           = Some (Inr (str ''1 '' @ P), \<lparr>buffer = []\<rparr>, sock) \<and>
         (32 \<notin> set (py_rstrip P) \<longrightarrow> from_string (str ''1 '' @ P) = Inr None) \<and>
         (\<forall>h c. py_rstrip P = h @ 32 # c \<and> 32 \<notin> set h \<longrightarrow>
            from_string (str ''1 '' @ P)
              = Inr (Some \<lparr>type = SEND, header = h, content = c\<rparr>))"
proof -
  let ?bs = "bytes ''1 '' @ pbytes @ [13]"
  have e1: "encode (str ''1 '') = Inr (bytes ''1 '')" and e2: "encode [13] = Inr [13]"
    by (simp_all add: str_def bytes_def encode_char_def)
  with assms(2) have enc: "encode (str ''1 '' @ P @ [13]) = Inr ?bs"
    by (simp add: encode_append)
  then have snd: "send P wire = (Inr (), wire @ ?bs)" by (simp add: send_def)
  from encode_decode [OF enc] have dec: "decode ?bs = Inr (str ''1 '' @ P @ [13])"
    and len: "length ?bs = length (str ''1 '' @ P @ [13])" by simp_all
  from len assms(3) have "length ?bs \<le> BUFFER_SIZE" by (simp add: str_def)
  with dec have rd: "read (Recv ?bs # sock) = (Inr (str ''1 '' @ P @ [13]), sock)"
    by (simp add: read_def recv_def)
  have nd: "DELIM \<notin> set (str ''1 '' @ P)" using assms(1) by (simp add: str_def DELIM_def)
  have cr: "str ''1 '' @ P @ [13] = (str ''1 '' @ P) @ DELIM # []" by (simp add: DELIM_def)
  have "working_chunk init (Recv ?bs # sock) = Some (Inr ((str ''1 '' @ P) @ DELIM # []), init, sock)"
    using rd unfolding cr
    by (simp add: working_chunk_def init_def read_data_def check_none_def read_until_delim_found)
  moreover have "py_split DELIM (Suc 0) ((str ''1 '' @ P) @ DELIM # []) = [str ''1 '' @ P, []]"
    using py_split_first [OF nd, of 0 "[]"] by simp
  ultimately have it: "iterator_next init (Recv ?bs # sock)
           = Some (Inr (str ''1 '' @ P), \<lparr>buffer = []\<rparr>, sock)"
    by (simp add: iterator_next_def init_def del: py_split.simps)
  from snd it show ?thesis
    by (simp add: from_string_one_no_space from_string_one_payload)
qed

theorem send_read_parse_witness:
  "DELIM \<notin> set (str ''say hello '') \<and> encode (str ''say hello '') = Inr (bytes ''say hello '') \<and>
   length (str ''say hello '') + 3 \<le> BUFFER_SIZE \<and>
   send (str ''say hello '') [] = (Inr (), bytes ''1 '' @ bytes ''say hello '' @ [13]) \<and>
   iterator_next init [Recv (bytes ''1 '' @ bytes ''say hello '' @ [13])]
     = Some (Inr (str ''1 '' @ str ''say hello ''), \<lparr>buffer = []\<rparr>, []) \<and>
   py_rstrip (str ''say hello '') = str ''say'' @ 32 # str ''hello'' \<and> 32 \<notin> set (str ''say'') \<and>
   from_string (str ''1 '' @ str ''say hello '')
     = Inr (Some \<lparr>type = SEND, header = str ''say'', content = str ''hello''\<rparr>) \<and>
   DELIM \<notin> set (str ''hello'') \<and> encode (str ''hello'') = Inr (bytes ''hello'') \<and>
   length (str ''hello'') + 3 \<le> BUFFER_SIZE \<and> 32 \<notin> set (py_rstrip (str ''hello'')) \<and>
   from_string (str ''1 '' @ str ''hello'') = Inr None"
proof -
  have a: "DELIM \<notin> set (str ''say hello '')" and a': "DELIM \<notin> set (str ''hello'')"
    by (simp_all add: str_def DELIM_def)
  have b: "encode (str ''say hello '') = Inr (bytes ''say hello '')"
    and b': "encode (str ''hello'') = Inr (bytes ''hello'')"
    by (simp_all add: str_def bytes_def encode_char_def)
  have c: "length (str ''say hello '') + 3 \<le> BUFFER_SIZE"
    and c': "length (str ''hello'') + 3 \<le> BUFFER_SIZE"
    by (simp_all add: str_def BUFFER_SIZE_def)
  have d: "py_rstrip (str ''say hello '') = str ''say'' @ 32 # str ''hello''"
    and d1: "32 \<notin> set (str ''say'')" and d': "32 \<notin> set (py_rstrip (str ''hello''))"
    by (simp_all add: str_def py_rstrip_def py_isspace_def)
  from send_read_parse [OF a b c, of "[]" "[]"] send_read_parse [OF a' b' c', of "[]" "[]"] a b c d d1 a' b' c' d'
  show ?thesis by simp
qed

section \<open>Registry: the claims\<close>

lemma registry_step_other: "j \<noteq> i \<Longrightarrow> registry_step i op r j = r j"
  by (cases op) (auto simp: set_global_def unset_global_def split: option.splits)

lemma registry_run_other: "j \<noteq> i \<Longrightarrow> registry_run i ops r j = r j"
  by (induction ops arbitrary: r) (simp_all add: registry_step_other)

text \<open>
  Claim C9. After \<open>set_global\<close> for an identity with a connection \<open>c1\<close> and then
  with a connection \<open>c2\<close>, \<open>get_global_instance\<close> for that identity returns \<open>c2\<close>;
  after \<open>unset_global\<close> it returns \<open>None\<close>; and no run of registry operations
  under one identity changes what \<open>get_global_instance\<close> returns for another.
\<close>

theorem registry_last_write_wins:
  "get_global_instance i (set_global i c2 (set_global i c1 r)) = Some c2 \<and>
   get_global_instance i (snd (unset_global i r)) = None \<and>
   (j \<noteq> i \<longrightarrow> get_global_instance j (registry_run i ops r) = get_global_instance j r)"
proof -
  have "get_global_instance i (snd (unset_global i r)) = None"
    by (simp add: get_global_instance_def unset_global_def split: option.splits)
  then show ?thesis
    by (simp add: get_global_instance_def set_global_def registry_run_other)
qed

theorem registry_last_write_wins_witness:
  "get_global_instance (1::nat) (set_global 1 (20::nat) (set_global 1 10 [2 \<mapsto> 30])) = Some 20 \<and>
   get_global_instance 1 (snd (unset_global 1 [1 \<mapsto> 10, 2 \<mapsto> 30 :: nat])) = None \<and>
   (2::nat) \<noteq> 1 \<and>
   get_global_instance 2 (registry_run 1 [SetGlobal 10, GetGlobalInstance, UnsetGlobal, UnsetGlobal, SetGlobal 20] [2 \<mapsto> 30 :: nat])
     = Some 30"
proof -
  have "(2::nat) \<noteq> 1" by simp
  with registry_last_write_wins [of 1 "20::nat" 10 "[2 \<mapsto> 30]" 2 "[SetGlobal 10, GetGlobalInstance, UnsetGlobal, UnsetGlobal, SetGlobal 20]"]
    registry_last_write_wins [of 1 "20::nat" 10 "[1 \<mapsto> 10, 2 \<mapsto> 30]" 2 "[]"]
  show ?thesis by (simp add: get_global_instance_def)
qed

end
